theory Spec2Isabelle
  imports Main "HOL-Library.Word"
begin

section \<open>Text utilities: \<open>utils.Snakify\<close>\<close>

text \<open>
  Go strings are read by \<open>regexp\<close>, \<open>strings.TrimSpace\<close> and \<open>strings.ToLower\<close> as
  sequences of Unicode code points. A text is therefore a list of code points. The three
  Unicode tables these library functions consult (the general category \<open>L\<close>, the
  white-space property and the simple lower-case mapping) belong to the Go runtime, not to
  the repository; they are a parameter of the model. The fourth table, the decimal digits
  of Unicode (category \<open>Nd\<close>), is consulted by the specification's wording only: the
  code never reads it.
\<close>

type_synonym rune = nat
type_synonym gostring = "rune list"

record unicode =
  IsLetter :: "rune \<Rightarrow> bool"
  IsSpace :: "rune \<Rightarrow> bool"
  ToLower :: "rune \<Rightarrow> rune"
  IsDigit :: "rune \<Rightarrow> bool"

text \<open>The code points of an ASCII literal.\<close>

definition runes :: "string \<Rightarrow> gostring" where
  "runes s = map of_char s"

text \<open>
  \<open>var snakedChars = regexp.MustCompile(`[^\p{L}\d_]+`)\<close>: one character of the class.
  In Go's regular expressions \<open>\d\<close> is the ASCII digits 0..9 (48..57); \<open>_\<close> is 95.
\<close>

definition snakedChars :: "unicode \<Rightarrow> rune \<Rightarrow> bool" where
  "snakedChars U c = (\<not> (IsLetter U c \<or> (48 \<le> c \<and> c \<le> 57) \<or> c = 95))"

text \<open>\<open>strings.TrimSpace\<close>: leading and trailing white space removed.\<close>

definition TrimSpace :: "unicode \<Rightarrow> gostring \<Rightarrow> gostring" where
  "TrimSpace U t = rev (dropWhile (IsSpace U) (rev (dropWhile (IsSpace U) t)))"

text \<open>
  \<open>snakedChars.ReplaceAllString(t, "_")\<close>: scanning from the left, every maximal run of
  characters of the class becomes one underscore.
\<close>

function ReplaceAllString :: "unicode \<Rightarrow> gostring \<Rightarrow> gostring" where
  "ReplaceAllString U [] = []"
| "ReplaceAllString U (c # cs) =
     (if snakedChars U c then 95 # ReplaceAllString U (dropWhile (snakedChars U) cs)
      else c # ReplaceAllString U cs)"
  by pat_completeness auto
termination
  by (relation "measure (\<lambda>(U, t). length t)")
     (auto simp: length_dropWhile_le less_Suc_eq_le)

text \<open>
  \<open>func Snakify(text string) string {
       return strings.ToLower(snakedChars.ReplaceAllString(strings.TrimSpace(text), "_")) }\<close>
\<close>

definition Snakify :: "unicode \<Rightarrow> gostring \<Rightarrow> gostring" where
  "Snakify U t = map (ToLower U) (ReplaceAllString U (TrimSpace U t))"

text \<open>
  For the wordings of the function: every maximal run of characters that are not kept
  becomes a single underscore.
\<close>

function replace_runs :: "(rune \<Rightarrow> bool) \<Rightarrow> gostring \<Rightarrow> gostring" where
  "replace_runs keep [] = []"
| "replace_runs keep (c # cs) =
     (if keep c then c # replace_runs keep cs
      else 95 # replace_runs keep (dropWhile (\<lambda>x. \<not> keep x) cs))"
  by pat_completeness auto
termination
  by (relation "measure (\<lambda>(keep, t). length t)")
     (auto simp: length_dropWhile_le less_Suc_eq_le)

text \<open>
  The specification's wording of \<open>snakify\<close>: lower-case the trimmed text and replace each
  maximal run of characters that are not Unicode letters, digits or underscore by a single
  underscore. The digits are those of Unicode, as the letters are.
\<close>

definition snakify_spec :: "unicode \<Rightarrow> gostring \<Rightarrow> gostring" where
  "snakify_spec U t =
     replace_runs (\<lambda>c. IsLetter U c \<or> IsDigit U c \<or> c = 95)
       (map (ToLower U) (TrimSpace U t))"

text \<open>
  The same wording with the digits narrowed to the ASCII digits 0 to 9: lower-case the
  trimmed text and replace each maximal run of characters that are not Unicode letters,
  ASCII digits or underscore by a single underscore.
\<close>

definition snakify_ascii_digits :: "unicode \<Rightarrow> gostring \<Rightarrow> gostring" where
  "snakify_ascii_digits U t =
     replace_runs (\<lambda>c. IsLetter U c \<or> (48 \<le> c \<and> c \<le> 57) \<or> c = 95)
       (map (ToLower U) (TrimSpace U t))"

text \<open>
  What the order of the wording (lower-case first) needs from the Unicode tables:
  lower-casing maps letters to letters and leaves digits, the underscore and every other
  non-letter outside the letters.
\<close>

definition lower_keeps_class :: "unicode \<Rightarrow> bool" where
  "lower_keeps_class U =
     (ToLower U 95 = 95 \<and> (\<forall>c. snakedChars U (ToLower U c) = snakedChars U c))"

text \<open>The ASCII part of the tables, used to evaluate examples.\<close>

definition ascii :: unicode where
  "ascii = \<lparr> IsLetter = (\<lambda>c. (65 \<le> c \<and> c \<le> 90) \<or> (97 \<le> c \<and> c \<le> 122)),
             IsSpace = (\<lambda>c. c = 32 \<or> (9 \<le> c \<and> c \<le> 13)),
             ToLower = (\<lambda>c. if 65 \<le> c \<and> c \<le> 90 then c + 32 else c),
             IsDigit = (\<lambda>c. 48 \<le> c \<and> c \<le> 57) \<rparr>"

text \<open>
  The same part with the Arabic-Indic digits U+0660 to U+0669 (1632 to 1641), which are
  decimal digits of Unicode and not letters.
\<close>

definition ascii_arabic :: unicode where
  "ascii_arabic = ascii\<lparr> IsDigit := (\<lambda>c. (48 \<le> c \<and> c \<le> 57) \<or> (1632 \<le> c \<and> c \<le> 1641)) \<rparr>"


section \<open>Results (\<open>flows.Results\<close>)\<close>

type_synonym uuid = string
type_synonym error = string

text \<open>
  \<open>type Result struct\<close>. Wall-clock stamps (\<open>CreatedOn\<close>, and likewise \<open>arrived_on\<close>
  and \<open>exited_on\<close> below) are not part of the model; \<open>Extra\<close> is the raw JSON text.
\<close>

record Result =
  Name :: gostring
  Value :: string
  Category :: string
  CategoryLocalized :: string
  NodeUUID :: uuid
  Input :: string
  Extra :: string

text \<open>\<open>type Results map[string]*Result\<close>, keyed by snakified names.\<close>

type_synonym Results = "gostring \<rightharpoonup> Result"

definition NewResult ::
  "gostring \<Rightarrow> string \<Rightarrow> string \<Rightarrow> string \<Rightarrow> uuid \<Rightarrow> string \<Rightarrow> string \<Rightarrow> Result" where
  "NewResult name val category categoryLocalized nodeUUID inp extra =
     \<lparr> Name = name, Value = val, Category = category,
       CategoryLocalized = categoryLocalized, NodeUUID = nodeUUID,
       Input = inp, Extra = extra \<rparr>"

definition NewResults :: Results where
  "NewResults = Map.empty"

text \<open>\<open>Clone\<close> copies every entry into a fresh map.\<close>

definition Clone :: "Results \<Rightarrow> Results" where
  "Clone r = (\<lambda>k. r k)"

text \<open>\<open>func (r Results) Save(result *Result) { r[utils.Snakify(result.Name)] = result }\<close>\<close>

definition Save :: "unicode \<Rightarrow> Results \<Rightarrow> Result \<Rightarrow> Results" where
  "Save U r result = r(Snakify U (Name result) \<mapsto> result)"

definition Get :: "Results \<Rightarrow> gostring \<Rightarrow> Result option" where
  "Get r key = r key"

text \<open>
  Modelled from the spec: the engine calls the results map with the node, the result name,
  the matched value and the category (\<open>run.Results().Save(node.UUID(), router.Name(),
  route.Match(), exitName, ...)\<close>); that five-argument method is not among the sources.
  Following the specification (a result is stored keyed by the snakified name and carries
  the node that produced it), it builds the result and saves it with \<open>Save\<close>.
\<close>

definition SaveNew :: "unicode \<Rightarrow> Results \<Rightarrow> uuid \<Rightarrow> gostring \<Rightarrow> string \<Rightarrow> string \<Rightarrow> Results" where
  "SaveNew U r node name val category =
     Save U r (NewResult name val category [] node [] [])"


section \<open>Flow graph and run state\<close>

datatype event =
    ErrorEvent error
  | SaveResultEvent uuid gostring string string
  | FlowExitEvent uuid
  | InputEvent string

text \<open>
  Modelled from the spec: the run statuses (the sources name \<open>flows.RunActive\<close> and
  \<open>flows.RunCompleted\<close>; the declaration of the type is not among them).
\<close>

datatype RunStatus =
  RunActive | RunWaiting | RunCompleted | RunErrored | RunExpired | RunInterrupted

text \<open>
  Modelled from the spec: a step records the node entered, the exit it left through (empty
  until it leaves) and its error records.
\<close>

record Step =
  step_node :: uuid
  exit_uuid :: uuid
  step_errors :: "error list"

text \<open>
  A \<open>flows.Step\<close> value in the engine is a pointer to a step of the run's path: here the
  index of that step in the path. \<open>None\<close> is the nil step.
\<close>

type_synonym step_ref = nat

record Contact =
  contact_language :: string

text \<open>
  Modelled from the spec: the run (\<open>flows.FlowRun\<close> is an interface whose implementation
  is not among the sources). The flow and the parent are references by UUID; \<open>wait\<close>
  is the descriptor of the pending wait; \<open>events\<close> pairs each event with the step it
  was emitted through; \<open>session_runs\<close> is the run list of the session that owns the run.
\<close>

record Run =
  run_uuid :: uuid
  run_flow :: uuid
  run_contact :: "Contact option"
  run_parent :: "uuid option"
  path :: "Step list"
  results :: Results
  status :: RunStatus
  wait :: "string option"
  run_input :: "event option"
  language :: string
  flow_translations :: "(string \<times> string) list"
  events :: "(step_ref \<times> event) list"
  session_runs :: "uuid list"

record Exit =
  exit_UUID :: uuid
  exit_Name :: string
  Destination :: uuid

record Route =
  route_Exit :: uuid
  route_Match :: string

definition NoRoute :: Route where
  "NoRoute = \<lparr> route_Exit = [], route_Match = [] \<rparr>"

text \<open>
  Actions, waits and routers are interfaces. An implementation is given by its methods,
  each a function of the run (which it may change) that returns the changed run with its
  results; a Go \<open>error\<close> result is an \<open>error option\<close>.
\<close>

type_synonym Action = "Run \<Rightarrow> step_ref \<Rightarrow> Run \<times> error option"

record Wait =
  Begin :: "Run \<Rightarrow> step_ref \<Rightarrow> Run \<times> error option"
  GetEndEvent :: "Run \<Rightarrow> step_ref \<Rightarrow> Run \<times> event option \<times> error option"
  End :: "Run \<Rightarrow> step_ref \<Rightarrow> event option \<Rightarrow> Run \<times> error option"

record Router =
  PickRoute :: "Run \<Rightarrow> Exit list \<Rightarrow> step_ref \<Rightarrow> Run \<times> Route \<times> error option"
  router_Name :: gostring

record Node =
  node_UUID :: uuid
  Actions :: "Action list"
  node_Wait :: "Wait option"
  node_Router :: "Router option"
  Exits :: "Exit list"

record Flow =
  flow_UUID :: uuid
  flow_Language :: string
  Translations :: "(string \<times> string) list"
  Nodes :: "Node list"

text \<open>
  Modelled from the spec: \<open>flow.GetNode\<close> looks a node up by its UUID (nil when the flow
  has none).
\<close>

definition GetNode :: "Flow \<Rightarrow> uuid \<Rightarrow> Node option" where
  "GetNode flow u = find (\<lambda>n. node_UUID n = u) (Nodes flow)"

text \<open>
  The environment (\<open>sessionEnvironment\<close>) holds the flows and the runs by UUID. Only what
  the engine reads is kept: the runs, and the flows as the resolution of a run's flow
  reference (\<open>run.Flow()\<close> always yields a flow, so the resolution is total).
  \<open>new_run_uuid\<close> is the UUID the next created run gets.
\<close>

record Env =
  env_flows :: "uuid \<Rightarrow> Flow"
  env_runs :: "uuid \<rightharpoonup> Run"
  new_run_uuid :: uuid

definition GetRun :: "Env \<Rightarrow> uuid \<Rightarrow> error + Run" where
  "GetRun e u = (case env_runs e u of
                   Some r \<Rightarrow> Inr r
                 | None \<Rightarrow> Inl (''unable to find run with UUID: '' @ u))"

definition AddRun :: "Env \<Rightarrow> Run \<Rightarrow> Env" where
  "AddRun e r = e\<lparr> env_runs := (env_runs e)(run_uuid r \<mapsto> r) \<rparr>"

subsection \<open>Run methods\<close>

text \<open>
  The methods of the run that the engine calls are not among the sources; each is written
  from the specification's description of the run.
\<close>

text \<open>
  Modelled from the spec: \<open>flow.CreateRun\<close>. A created run is active, with an empty path,
  no results, no pending wait and no events; it joins its parent's session, or owns a new
  one.
\<close>

definition CreateRun :: "Env \<Rightarrow> Flow \<Rightarrow> Contact option \<Rightarrow> Run option \<Rightarrow> Run" where
  "CreateRun env flow contact parent =
     \<lparr> run_uuid = new_run_uuid env, run_flow = flow_UUID flow, run_contact = contact,
       run_parent = map_option run_uuid parent, path = [], results = NewResults,
       status = RunActive, wait = None, run_input = None, language = [],
       flow_translations = [], events = [],
       session_runs = (case parent of None \<Rightarrow> [] | Some p \<Rightarrow> session_runs p)
                        @ [new_run_uuid env] \<rparr>"

text \<open>Modelled from the spec: the setters of the run store their argument.\<close>

definition SetInput :: "Run \<Rightarrow> event \<Rightarrow> Run" where
  "SetInput run i = run\<lparr> run_input := Some i \<rparr>"

definition SetLanguage :: "Run \<Rightarrow> string \<Rightarrow> Run" where
  "SetLanguage run l = run\<lparr> language := l \<rparr>"

definition SetFlowTranslations :: "Run \<Rightarrow> (string \<times> string) list \<Rightarrow> Run" where
  "SetFlowTranslations run t = run\<lparr> flow_translations := t \<rparr>"

definition SetSession :: "Run \<Rightarrow> uuid list \<Rightarrow> Run" where
  "SetSession run s = run\<lparr> session_runs := s \<rparr>"

text \<open>Modelled from the spec: \<open>run.Exit\<close> sets the status of the run.\<close>

definition run_Exit :: "Run \<Rightarrow> RunStatus \<Rightarrow> Run" where
  "run_Exit run s = run\<lparr> status := s \<rparr>"

text \<open>Modelled from the spec: a run is complete when its status is completed.\<close>

definition IsComplete :: "Run \<Rightarrow> bool" where
  "IsComplete run = (status run = RunCompleted)"

text \<open>
  Modelled from the spec: \<open>run.CreateStep\<close> appends a step for the node to the path and
  returns it.
\<close>

definition CreateStep :: "Run \<Rightarrow> Node \<Rightarrow> Run \<times> step_ref" where
  "CreateStep run node =
     (run\<lparr> path := path run @ [\<lparr> step_node = node_UUID node, exit_uuid = [],
                                    step_errors = [] \<rparr>] \<rparr>,
      length (path run))"

text \<open>Modelled from the spec: \<open>run.AddEvent\<close> appends the event, emitted through the step.\<close>

definition AddEvent :: "Run \<Rightarrow> step_ref \<Rightarrow> event \<Rightarrow> Run" where
  "AddEvent run step ev = run\<lparr> events := events run @ [(step, ev)] \<rparr>"

text \<open>
  Modelled from the spec: \<open>run.AddError\<close> appends an error record to the step and emits an
  error event. An error is logged; nothing in the specification makes logging one change
  the status of the run.
\<close>

definition AddError :: "Run \<Rightarrow> step_ref \<Rightarrow> error \<Rightarrow> Run" where
  "AddError run step err =
     AddEvent
       (run\<lparr> path := (path run)[step := (path run ! step)
                          \<lparr> step_errors := step_errors (path run ! step) @ [err] \<rparr>] \<rparr>)
       step (ErrorEvent err)"

text \<open>Modelled from the spec: \<open>step.Leave\<close> stamps the exit on the step.\<close>

definition Leave :: "Run \<Rightarrow> step_ref \<Rightarrow> uuid \<Rightarrow> Run" where
  "Leave run step exitUUID =
     run\<lparr> path := (path run)[step := (path run ! step)\<lparr> exit_uuid := exitUUID \<rparr>] \<rparr>"


text \<open>
  Modelled from the spec: hydration resolves the references of a stored run through the
  environment; the state of the run is not changed by it.
\<close>

definition Hydrate :: "Run \<Rightarrow> Env \<Rightarrow> Run" where
  "Hydrate run env = run"


section \<open>The engine (\<open>flows/engine/engine.go\<close>)\<close>

definition noDestination :: uuid where
  "noDestination = []"

text \<open>\<open>fmt.Errorf("... '%s'", x)\<close>: the argument between single quotes.\<close>

definition quoted :: "string \<Rightarrow> string" where
  "quoted x = CHR 0x27 # x @ [CHR 0x27]"

text \<open>
  The engine functions return \<open>(flows.NodeUUID, flows.Step, error)\<close> and change the run
  they are given: here they return the changed run first.
\<close>

type_synonym outcome = "Run \<times> uuid \<times> step_ref option \<times> error option"

text \<open>
  The lookup loop of \<open>pickNodeExit\<close>: it does not stop at the first match, so the last
  exit with the UUID is the one kept.
\<close>

definition findExit :: "Exit list \<Rightarrow> uuid \<Rightarrow> Exit option" where
  "findExit es exitUUID =
     foldl (\<lambda>found e. if exit_UUID e = exitUUID then Some e else found) None es"

definition pickNodeExit :: "unicode \<Rightarrow> Run \<Rightarrow> Node \<Rightarrow> step_ref \<Rightarrow> outcome" where
  "pickNodeExit U run node step =
     (let (run1, route, err) =
            (case node_Router node of
               Some router \<Rightarrow> PickRoute router run (Exits node) step
             | None \<Rightarrow> (run, NoRoute, None));
          exitUUID =
            (case node_Router node of
               Some router \<Rightarrow> route_Exit route
             | None \<Rightarrow> (case Exits node of e # es \<Rightarrow> exit_UUID e | [] \<Rightarrow> []));
          run2 = Leave run1 step exitUUID
      in case err of
           Some e \<Rightarrow> (AddError run2 step e, noDestination, Some step, Some e)
         | None \<Rightarrow>
            (let exit = (if exitUUID \<noteq> [] then findExit (Exits node) exitUUID else None);
                 exitName = (case exit of Some e \<Rightarrow> exit_Name e | None \<Rightarrow> []);
                 err2 = (if exitUUID \<noteq> []
                         then Some (''Unable to find exit with uuid '' @ quoted exitUUID)
                         else None);
                 run3 =
                   (case node_Router node of
                      Some router \<Rightarrow>
                        if router_Name router \<noteq> [] then
                          (let run' = AddEvent run2 step
                                  (SaveResultEvent (node_UUID node) (router_Name router)
                                     (route_Match route) exitName)
                           in run'\<lparr> results := SaveNew U (results run') (node_UUID node)
                                        (router_Name router) (route_Match route) exitName \<rparr>)
                        else run2
                    | None \<Rightarrow> run2)
             in case exit of
                  None \<Rightarrow> (run3, noDestination, Some step, err2)
                | Some e \<Rightarrow> (run3, Destination e, Some step, None)))"

text \<open>The action loop of \<open>enterNode\<close>: it returns at the first action that fails.\<close>

fun executeActions :: "Action list \<Rightarrow> Run \<Rightarrow> step_ref \<Rightarrow> Run \<times> error option" where
  "executeActions [] run step = (run, None)"
| "executeActions (a # as) run step =
     (case a run step of
        (run', Some err) \<Rightarrow> (run', Some err)
      | (run', None) \<Rightarrow> executeActions as run' step)"

definition enterNode :: "unicode \<Rightarrow> Run \<Rightarrow> Node \<Rightarrow> event option \<Rightarrow> outcome" where
  "enterNode U run node ev =
     (let (run1, step) = CreateStep run node;
          run2 = (case ev of Some e \<Rightarrow> AddEvent run1 step e | None \<Rightarrow> run1)
      in case executeActions (Actions node) run2 step of
           (run3, Some err) \<Rightarrow> (run3, noDestination, Some step, Some err)
         | (run3, None) \<Rightarrow>
            (case node_Wait node of
               None \<Rightarrow> pickNodeExit U run3 node step
             | Some w \<Rightarrow>
                (case Begin w run3 step of
                   (run4, Some err) \<Rightarrow> (run4, noDestination, Some step, Some err)
                 | (run4, None) \<Rightarrow>
                    (case GetEndEvent w run4 step of
                       (run5, _, Some err) \<Rightarrow> (run5, noDestination, Some step, Some err)
                     | (run5, None, None) \<Rightarrow> (run5, noDestination, Some step, None)
                     | (run5, Some e, None) \<Rightarrow>
                        (case End w run5 step (Some e) of
                           (run6, Some err) \<Rightarrow> (run6, noDestination, Some step, Some err)
                         | (run6, None) \<Rightarrow> pickNodeExit U run6 node step)))))"

definition resumeNode :: "unicode \<Rightarrow> Run \<Rightarrow> Node \<Rightarrow> step_ref \<Rightarrow> event option \<Rightarrow> outcome" where
  "resumeNode U run node step ev =
     (case node_Wait node of
        None \<Rightarrow>
          (run, noDestination, None,
           Some (''Cannot resume flow at node '' @ quoted (node_UUID node)
                 @ '' which no longer contains wait''))
      | Some w \<Rightarrow>
          (case End w run step ev of
             (run1, Some err) \<Rightarrow> (run1, noDestination, None, Some err)
           | (run1, None) \<Rightarrow> pickNodeExit U run1 node step))"

definition initTranslations :: "Flow \<Rightarrow> Run \<Rightarrow> Run" where
  "initTranslations flow run =
     SetFlowTranslations
       (case run_contact run of
          Some contact \<Rightarrow> SetLanguage run (contact_language contact)
        | None \<Rightarrow> SetLanguage run (flow_Language flow))
       (Translations flow)"

text \<open>
  The end of \<open>continueRunUntilWait\<close>: no wait and no destination means the run has
  completed.
\<close>

definition finish :: "Run \<Rightarrow> error option \<Rightarrow> Run \<times> error option" where
  "finish run err =
     (if wait run = None \<and> status run = RunActive then (run_Exit run RunCompleted, err)
      else (run, err))"

text \<open>The two errors that \<open>continueRunUntilWait\<close> builds with \<open>fmt.Errorf\<close>.\<close>

definition loopError :: "uuid \<Rightarrow> error" where
  "loopError destination =
     ''Flow loop detected, stopping execution before entering '' @ quoted destination"

definition destinationError :: "uuid \<Rightarrow> error" where
  "destinationError destination = ''Unable to find destination '' @ quoted destination"

text \<open>
  The loop of \<open>continueRunUntilWait\<close>, with the set of visited UUIDs as an argument.
  With a nil step the two error branches return at once, without the final check.
\<close>

function traverse ::
  "unicode \<Rightarrow> Flow \<Rightarrow> uuid set \<Rightarrow> Run \<Rightarrow> uuid \<Rightarrow> step_ref option \<Rightarrow> event option
     \<Rightarrow> error option \<Rightarrow> Run \<times> error option" where
  "traverse U flow visited run destination step ev err =
     (if destination \<noteq> noDestination then
        (if destination \<in> visited then
           (let e = loopError destination
            in case step of
                 None \<Rightarrow> (run, Some e)
               | Some s \<Rightarrow> finish (AddError run s e) (Some e))
         else
           (case GetNode flow destination of
              None \<Rightarrow>
                (let e = destinationError destination
                 in case step of
                      None \<Rightarrow> (run, Some e)
                    | Some s \<Rightarrow> finish (AddError run s e) (Some e))
            | Some node \<Rightarrow>
                (case enterNode U run node ev of
                   (run', destination', step', err') \<Rightarrow>
                     traverse U flow (insert (node_UUID node) visited) run' destination'
                       step' None err')))
      else finish run err)"
  by pat_completeness auto
termination
proof (relation "measure (\<lambda>(U, flow, visited, run, destination, step, ev, err).
                            card (node_UUID ` set (Nodes flow) - visited))")
  show "wf (measure (\<lambda>(U, flow, visited, run, destination, step, ev, err).
                            card (node_UUID ` set (Nodes flow) - visited)))"
    by simp
next
  fix U :: unicode and flow :: Flow and visited :: "uuid set" and run :: Run
    and destination :: uuid and step :: "step_ref option" and ev :: "event option"
    and err :: "error option" and node x xa y xb ya xc yb
  assume fresh: "destination \<notin> visited"
    and found: "GetNode flow destination = Some node"
  from found have mem: "node \<in> set (Nodes flow)" and same: "node_UUID node = destination"
    by (auto simp: GetNode_def find_Some_iff)
  have inside: "node_UUID node \<in> node_UUID ` set (Nodes flow) - visited"
    using mem same fresh by auto
  have fin: "finite (node_UUID ` set (Nodes flow) - visited)"
    by simp
  have split: "node_UUID ` set (Nodes flow) - insert (node_UUID node) visited
                 = (node_UUID ` set (Nodes flow) - visited) - {node_UUID node}"
    by auto
  have "card (node_UUID ` set (Nodes flow) - insert (node_UUID node) visited)
          < card (node_UUID ` set (Nodes flow) - visited)"
    unfolding split by (rule card_Diff1_less [OF fin inside])
  then show "((U, flow, insert (node_UUID node) visited, xa, xb, xc, None, yb),
              (U, flow, visited, run, destination, step, ev, err))
             \<in> measure (\<lambda>(U, flow, visited, run, destination, step, ev, err).
                            card (node_UUID ` set (Nodes flow) - visited))"
    by simp
qed

declare traverse.simps [simp del]

definition continueRunUntilWait ::
  "unicode \<Rightarrow> Flow \<Rightarrow> Run \<Rightarrow> uuid \<Rightarrow> step_ref option \<Rightarrow> event option \<Rightarrow> Run \<times> error option" where
  "continueRunUntilWait U flow run destination step ev =
     traverse U flow {} run destination step ev None"

text \<open>
  \<open>StartFlow\<close> returns \<open>run.Session()\<close> and the error: here the run, whose field
  \<open>session_runs\<close> is the session it belongs to.
\<close>

definition StartFlow ::
  "unicode \<Rightarrow> Env \<Rightarrow> Flow \<Rightarrow> Contact option \<Rightarrow> Run option \<Rightarrow> event option
     \<Rightarrow> Run \<times> error option" where
  "StartFlow U env flow contact parent inp =
     (let run = CreateRun env flow contact parent;
          run1 = (case inp of Some i \<Rightarrow> SetInput run i | None \<Rightarrow> run)
      in if length (Nodes flow) = 0 then (run_Exit run1 RunCompleted, None)
         else continueRunUntilWait U flow (initTranslations flow run1)
                (node_UUID (hd (Nodes flow))) None inp)"


text \<open>
  \<open>ResumeFlow\<close> calls itself on the parent run when the run has completed. Nothing bounds
  the chain of parents that the environment returns, so the function is partial: \<open>None\<close>
  is a call that does not return.
\<close>

partial_function (option) ResumeFlow ::
  "unicode \<Rightarrow> Env \<Rightarrow> Run \<Rightarrow> event option \<Rightarrow> (Run \<times> error option) option" where
  "ResumeFlow U env run0 ev =
     (let run = Hydrate run0 env
      in if length (path run) = 0 then Some (run, None)
         else
           (let flow = env_flows env (run_flow run);
                run1 = initTranslations flow run;
                step = length (path run1) - 1
            in case GetNode flow (step_node (path run1 ! step)) of
                 None \<Rightarrow>
                   (let err = ''cannot resume at node '' @ quoted (step_node (path run1 ! step))
                              @ '' that no longer exists''
                    in Some (AddError run1 step err, Some err))
               | Some node \<Rightarrow>
                   (case resumeNode U run1 node step ev of
                      (run2, destination, step', Some err) \<Rightarrow> Some (run2, Some err)
                    | (run2, destination, step', None) \<Rightarrow>
                       (case continueRunUntilWait U flow run2 destination step' None of
                          (run3, Some err) \<Rightarrow> Some (run3, Some err)
                        | (run3, None) \<Rightarrow>
                           (if run_parent run3 \<noteq> None \<and> IsComplete run3 then
                              (case GetRun env (the (run_parent run3)) of
                                 Inl err \<Rightarrow> Some (run3, Some err)
                               | Inr parentRun \<Rightarrow>
                                   ResumeFlow U env (SetSession parentRun (session_runs run3))
                                     (Some (FlowExitEvent (run_uuid run3))))
                            else Some (run3, None))))))"


section \<open>The webhook service (\<open>services/webhooks/service.go\<close>)\<close>


















section \<open>Reading contact modifiers\<close>

text \<open>
  Modelled from the spec: \<open>modifiers.ReadModifier\<close> and its readers are not among the
  sources (only their test is). Following the specification: a modifier names its type; a
  channel or field modifier whose asset is missing is reported through the \<open>missing\<close>
  callback and read as the \<open>no modifier\<close> error; a groups modifier reports every group
  that is missing and keeps the groups that resolve, and is the \<open>no modifier\<close> error only
  when none resolves. The callback appends to a log, which is returned.
\<close>

datatype Reference =
    ChannelReference uuid string
  | FieldReference string string
  | GroupReference uuid string

record Group =
  group_UUID :: uuid
  group_Name :: string

record SessionAssets =
  asset_channels :: "uuid \<rightharpoonup> string"
  asset_fields :: "string \<rightharpoonup> string"
  asset_groups :: "uuid \<rightharpoonup> Group"

datatype Modifier =
    ChannelModifier uuid
  | FieldModifier string string
  | GroupsModifier "Group list" string

datatype read_error = ErrNoModifier | TypeRequired | UnknownType string

record ModifierJSON =
  mj_type :: "string option"
  mj_channel :: "uuid \<times> string"
  mj_field :: "string \<times> string"
  mj_value :: string
  mj_modification :: string
  mj_groups :: "(uuid \<times> string) list"

text \<open>
  Modelled from the spec: the groups of a groups modifier are looked up in order; a group
  that is missing goes to the callback, a group that resolves is kept.
\<close>

fun resolveGroups ::
  "SessionAssets \<Rightarrow> (uuid \<times> string) list \<Rightarrow> Group list \<Rightarrow> Reference list
     \<Rightarrow> Group list \<times> Reference list" where
  "resolveGroups assets [] groups log = (groups, log)"
| "resolveGroups assets ((u, name) # refs) groups log =
     (case asset_groups assets u of
        None \<Rightarrow> resolveGroups assets refs groups (log @ [GroupReference u name])
      | Some g \<Rightarrow> resolveGroups assets refs (groups @ [g]) log)"

text \<open>
  Modelled from the spec: a groups modifier is read when at least one of its groups
  resolves, and is the \<open>no modifier\<close> error otherwise.
\<close>

definition readGroupsModifier ::
  "SessionAssets \<Rightarrow> ModifierJSON \<Rightarrow> Reference list \<Rightarrow> (read_error + Modifier) \<times> Reference list" where
  "readGroupsModifier assets data log =
     (case resolveGroups assets (mj_groups data) [] log of
        (groups, log') \<Rightarrow>
          if length groups > 0 then (Inr (GroupsModifier groups (mj_modification data)), log')
          else (Inl ErrNoModifier, log'))"

text \<open>
  Modelled from the spec: a channel modifier, and likewise a field modifier, whose asset is
  missing is reported and read as the \<open>no modifier\<close> error.
\<close>

definition readChannelModifier ::
  "SessionAssets \<Rightarrow> ModifierJSON \<Rightarrow> Reference list \<Rightarrow> (read_error + Modifier) \<times> Reference list" where
  "readChannelModifier assets data log =
     (case mj_channel data of
        (u, name) \<Rightarrow>
          (case asset_channels assets u of
             None \<Rightarrow> (Inl ErrNoModifier, log @ [ChannelReference u name])
           | Some c \<Rightarrow> (Inr (ChannelModifier u), log)))"

text \<open>Modelled from the spec: the field modifier, as the channel modifier.\<close>

definition readFieldModifier ::
  "SessionAssets \<Rightarrow> ModifierJSON \<Rightarrow> Reference list \<Rightarrow> (read_error + Modifier) \<times> Reference list" where
  "readFieldModifier assets data log =
     (case mj_field data of
        (key, name) \<Rightarrow>
          (case asset_fields assets key of
             None \<Rightarrow> (Inl ErrNoModifier, log @ [FieldReference key name])
           | Some f \<Rightarrow> (Inr (FieldModifier key (mj_value data)), log)))"

text \<open>
  Modelled from the spec: \<open>ReadModifier\<close> requires the type and dispatches on it; an
  unknown type is an error.
\<close>

definition ReadModifier ::
  "SessionAssets \<Rightarrow> ModifierJSON \<Rightarrow> Reference list \<Rightarrow> (read_error + Modifier) \<times> Reference list" where
  "ReadModifier assets data log =
     (case mj_type data of
        None \<Rightarrow> (Inl TypeRequired, log)
      | Some t \<Rightarrow>
          if t = ''channel'' then readChannelModifier assets data log
          else if t = ''field'' then readFieldModifier assets data log
          else if t = ''groups'' then readGroupsModifier assets data log
          else (Inl (UnknownType t), log))"


section \<open>Derived notions and examples\<close>

text \<open>The results maps that the operations of \<open>Results\<close> build.\<close>

inductive saved_results :: "unicode \<Rightarrow> Results \<Rightarrow> bool" for U where
  new: "saved_results U NewResults"
| save: "saved_results U r \<Longrightarrow> saved_results U (Save U r res)"
| clone: "saved_results U r \<Longrightarrow> saved_results U (Clone r)"

text \<open>
  The run as the first action of an entered node sees it: the step created, the entry event
  logged (the first lines of \<open>enterNode\<close>).
\<close>

definition arrive :: "Run \<Rightarrow> Node \<Rightarrow> event option \<Rightarrow> Run" where
  "arrive run node ev =
     (case ev of
        Some e \<Rightarrow> AddEvent (fst (CreateStep run node)) (length (path run)) e
      | None \<Rightarrow> fst (CreateStep run node))"


text \<open>Example actions, nodes and flows.\<close>

definition say :: "string \<Rightarrow> Action" where
  "say m run step = (AddEvent run step (InputEvent m), None)"

definition failing :: "error \<Rightarrow> Action" where
  "failing e run step = (run, Some e)"

definition plain_node :: "uuid \<Rightarrow> Action list \<Rightarrow> uuid \<Rightarrow> Node" where
  "plain_node u acts d =
     \<lparr> node_UUID = u, Actions = acts, node_Wait = None, node_Router = None,
       Exits = [\<lparr> exit_UUID = ''exit-of-'' @ u, exit_Name = [], Destination = d \<rparr>] \<rparr>"

definition end_node :: "uuid \<Rightarrow> Action list \<Rightarrow> Node" where
  "end_node u acts =
     \<lparr> node_UUID = u, Actions = acts, node_Wait = None, node_Router = None, Exits = [] \<rparr>"

definition flow_of :: "Node list \<Rightarrow> Flow" where
  "flow_of ns =
     \<lparr> flow_UUID = ''F1'', flow_Language = ''eng'', Translations = [], Nodes = ns \<rparr>"

definition env_of :: "Flow \<Rightarrow> Env" where
  "env_of f = \<lparr> env_flows = (\<lambda>u. f), env_runs = Map.empty, new_run_uuid = ''R1'' \<rparr>"

text \<open>Scenario 6 of the specification: N1 leads to N2, N2 back to N1, no wait.\<close>

definition loop_flow :: Flow where
  "loop_flow =
     flow_of [plain_node ''N1'' [say ''one''] ''N2'', plain_node ''N2'' [say ''two''] ''N1'']"

text \<open>A node whose second action fails.\<close>

definition failing_flow :: Flow where
  "failing_flow =
     flow_of [plain_node ''N1'' [say ''one'', failing ''boom'', say ''three''] ''N2'',
              end_node ''N2'' [say ''two'']]"

text \<open>
  A run that has entered N1 of the loop flow, and the same run stored as waiting there (the
  node has no wait).
\<close>

definition lone_run :: Run where
  "lone_run =
     fst (CreateStep (CreateRun (env_of loop_flow) loop_flow None None)
            (plain_node ''N1'' [say ''one''] ''N2''))"


definition waiting_run :: Run where
  "waiting_run = lone_run\<lparr> status := RunWaiting, wait := Some ''msg'' \<rparr>"

text \<open>A router that always picks the exit \<open>exit-of-N1\<close> and saves a result.\<close>

definition colour_router :: Router where
  "colour_router =
     \<lparr> PickRoute = (\<lambda>run exits step.
                       (run, \<lparr> route_Exit = ''exit-of-N1'', route_Match = ''red'' \<rparr>, None)),
       router_Name = runes ''Favorite Color'' \<rparr>"

definition colour_node :: Node where
  "colour_node = (plain_node ''N1'' [] ''N2'')\<lparr> node_Router := Some colour_router \<rparr>"







text \<open>
  Of the group references of a modifier: those the assets do not have, as the missing
  callback gets them, and the groups that resolve, both in the order of the references.
\<close>

definition missingGroups :: "SessionAssets \<Rightarrow> (uuid \<times> string) list \<Rightarrow> Reference list" where
  "missingGroups assets refs =
     map (\<lambda>(u, name). GroupReference u name)
       (filter (\<lambda>(u, name). asset_groups assets u = None) refs)"

definition resolvedGroups :: "SessionAssets \<Rightarrow> (uuid \<times> string) list \<Rightarrow> Group list" where
  "resolvedGroups assets refs = List.map_filter (\<lambda>(u, name). asset_groups assets u) refs"

text \<open>The groups modifiers and assets of \<open>TestReadModifier\<close> (UUIDs shortened).\<close>

definition groups_json :: "(uuid \<times> string) list \<Rightarrow> ModifierJSON" where
  "groups_json refs =
     \<lparr> mj_type = Some ''groups'', mj_channel = ([], []), mj_field = ([], []), mj_value = [],
       mj_modification = ''add'', mj_groups = refs \<rparr>"

definition no_assets :: SessionAssets where
  "no_assets = \<lparr> asset_channels = Map.empty, asset_fields = Map.empty,
                 asset_groups = Map.empty \<rparr>"

definition winners_assets :: SessionAssets where
  "winners_assets =
     \<lparr> asset_channels = Map.empty, asset_fields = Map.empty,
       asset_groups = [''4349cdd6'' \<mapsto> \<lparr> group_UUID = ''4349cdd6'', group_Name = ''Winners'' \<rparr>] \<rparr>"



text \<open>A run that has not entered any node.\<close>

definition fresh_run :: Run where
  "fresh_run = CreateRun (env_of loop_flow) loop_flow None None"


section \<open>Snakified result keys\<close>

lemma ReplaceAllString_lower:
  "lower_keeps_class U \<Longrightarrow>
     ReplaceAllString U (map (ToLower U) t) = map (ToLower U) (ReplaceAllString U t)"
proof (induction U t rule: ReplaceAllString.induct)
  case (1 U)
  show ?case by simp
next
  case (2 U c cs)
  have same: "snakedChars U \<circ> ToLower U = snakedChars U"
    using 2(3) by (auto simp: lower_keeps_class_def)
  show ?case
    using 2 by (auto simp: dropWhile_map same lower_keeps_class_def)
qed

lemma ReplaceAllString_runs:
  "ReplaceAllString U t
     = replace_runs (\<lambda>c. IsLetter U c \<or> (48 \<le> c \<and> c \<le> 57) \<or> c = 95) t"
proof -
  define keep where "keep = (\<lambda>c. IsLetter U c \<or> (48 \<le> c \<and> c \<le> 57) \<or> c = 95)"
  have other: "snakedChars U = (\<lambda>x. \<not> keep x)"
    by (auto simp: snakedChars_def keep_def)
  have "ReplaceAllString U t = replace_runs keep t"
  proof (induction t rule: length_induct)
    case (1 t)
    show ?case
    proof (cases t)
      case Nil
      then show ?thesis by simp
    next
      case (Cons c cs)
      have shorter: "length (dropWhile (\<lambda>x. \<not> keep x) cs) < length t"
        using Cons by (simp add: length_dropWhile_le less_Suc_eq_le)
      have "ReplaceAllString U cs = replace_runs keep cs"
        using 1 Cons by simp
      moreover have "ReplaceAllString U (dropWhile (\<lambda>x. \<not> keep x) cs)
                       = replace_runs keep (dropWhile (\<lambda>x. \<not> keep x) cs)"
        using 1 shorter by blast
      ultimately show ?thesis
        using Cons by (simp add: other)
    qed
  qed
  then show ?thesis
    by (simp add: keep_def)
qed

lemma Snakify_refines: "lower_keeps_class U \<Longrightarrow> Snakify U t = snakify_ascii_digits U t"
  by (simp add: Snakify_def snakify_ascii_digits_def ReplaceAllString_lower
        ReplaceAllString_runs [symmetric])

lemma lower_keeps_class_ascii: "lower_keeps_class ascii"
  unfolding lower_keeps_class_def by (auto simp: ascii_def snakedChars_def)

lemma saved_results_key:
  "saved_results U r \<Longrightarrow> r k = Some res \<Longrightarrow> k = Snakify U (Name res)"
proof (induction arbitrary: k res rule: saved_results.induct)
  case new
  then show ?case by (simp add: NewResults_def)
next
  case (save r res')
  then show ?case by (auto simp: Save_def split: if_splits)
next
  case (clone r)
  then show ?case by (simp add: Clone_def)
qed

lemma pickNodeExit_saves:
  assumes "node_Router node = Some router" and "router_Name router \<noteq> []"
    and "PickRoute router run (Exits node) step = (run1, route, None)"
  shows "results (fst (pickNodeExit U run node step)) =
           SaveNew U (results run1) (node_UUID node) (router_Name router) (route_Match route)
             (case (if route_Exit route \<noteq> []
                    then findExit (Exits node) (route_Exit route) else None) of
                Some e \<Rightarrow> exit_Name e | None \<Rightarrow> [])"
  using assms
  by (simp add: pickNodeExit_def Let_def Leave_def AddEvent_def split: option.splits)

text \<open>
  C6 (as amended). Every result in a results map built by the map's operations sits under
  the key \<open>Snakify\<close> of its name. When the engine leaves a node whose router has a result
  name (and routing did not fail), the run's results hold, under the snakified router name,
  a result with that name whose \<open>node_uuid\<close> is the UUID of that node, and the map stays
  one built by the map's operations. \<open>Snakify\<close> lower-cases the trimmed text and replaces
  each maximal run of characters that are not Unicode letters, ASCII digits 0 to 9 or
  underscore by a single underscore (the code replaces first and lower-cases last, which
  is the same for Unicode tables whose lower-casing keeps letters letters and non-letters
  non-letters). A digit of Unicode outside 0 to 9 is replaced like any other character.
\<close>

theorem result_keys_and_nodes:
  "(saved_results U r \<and> r k = Some res \<longrightarrow> k = Snakify U (Name res))
   \<and> (node_Router node = Some router \<and> router_Name router \<noteq> []
        \<and> PickRoute router run (Exits node) step = (run1, route, None)
      \<longrightarrow> (\<exists>res'. results (fst (pickNodeExit U run node step))
                      (Snakify U (router_Name router)) = Some res'
                  \<and> Name res' = router_Name router \<and> NodeUUID res' = node_UUID node)
          \<and> (saved_results U (results run1)
               \<longrightarrow> saved_results U (results (fst (pickNodeExit U run node step)))))
   \<and> (lower_keeps_class U \<longrightarrow> Snakify U t = snakify_ascii_digits U t)"
proof (intro conjI impI)
  assume "saved_results U r \<and> r k = Some res"
  then show "k = Snakify U (Name res)"
    using saved_results_key by blast
next
  assume routed: "node_Router node = Some router \<and> router_Name router \<noteq> []
        \<and> PickRoute router run (Exits node) step = (run1, route, None)"
  then show "\<exists>res'. results (fst (pickNodeExit U run node step))
                      (Snakify U (router_Name router)) = Some res'
                  \<and> Name res' = router_Name router \<and> NodeUUID res' = node_UUID node"
    by (simp add: pickNodeExit_saves SaveNew_def Save_def NewResult_def)
  assume "saved_results U (results run1)"
  then show "saved_results U (results (fst (pickNodeExit U run node step)))"
    using routed by (simp add: pickNodeExit_saves SaveNew_def saved_results.save)
next
  assume "lower_keeps_class U"
  then show "Snakify U t = snakify_ascii_digits U t"
    by (rule Snakify_refines)
qed


lemma Snakify_example: "Snakify ascii (runes ''Favorite Color'') = runes ''favorite_color''"
  by (simp add: Snakify_def TrimSpace_def runes_def ascii_def snakedChars_def)

theorem result_keys_and_nodes_witness:
  "saved_results ascii
     (Save ascii NewResults (NewResult (runes ''Favorite Color'') ''red'' ''Red'' [] ''N1'' [] []))
   \<and> Save ascii NewResults (NewResult (runes ''Favorite Color'') ''red'' ''Red'' [] ''N1'' [] [])
        (runes ''favorite_color'')
       = Some (NewResult (runes ''Favorite Color'') ''red'' ''Red'' [] ''N1'' [] [])
   \<and> runes ''favorite_color'' = Snakify ascii (runes ''Favorite Color'')
   \<and> node_Router colour_node = Some colour_router \<and> router_Name colour_router \<noteq> []
   \<and> PickRoute colour_router waiting_run (Exits colour_node) 0
        = (waiting_run, \<lparr> route_Exit = ''exit-of-N1'', route_Match = ''red'' \<rparr>, None)
   \<and> saved_results ascii (results waiting_run)
   \<and> (\<exists>res'. results (fst (pickNodeExit ascii waiting_run colour_node 0))
                 (Snakify ascii (router_Name colour_router)) = Some res'
              \<and> Name res' = router_Name colour_router \<and> NodeUUID res' = node_UUID colour_node)
   \<and> saved_results ascii (results (fst (pickNodeExit ascii waiting_run colour_node 0)))
   \<and> lower_keeps_class ascii
   \<and> Snakify ascii (runes '' Favorite  Color! '')
       = snakify_ascii_digits ascii (runes '' Favorite  Color! '')"
proof -
  have built: "saved_results ascii
     (Save ascii NewResults (NewResult (runes ''Favorite Color'') ''red'' ''Red'' [] ''N1'' [] []))"
    by (intro saved_results.intros)
  have stored: "Save ascii NewResults
        (NewResult (runes ''Favorite Color'') ''red'' ''Red'' [] ''N1'' [] [])
        (runes ''favorite_color'')
       = Some (NewResult (runes ''Favorite Color'') ''red'' ''Red'' [] ''N1'' [] [])"
    by (simp add: Save_def NewResult_def Snakify_example)
  have routed: "node_Router colour_node = Some colour_router \<and> router_Name colour_router \<noteq> []
   \<and> PickRoute colour_router waiting_run (Exits colour_node) 0
        = (waiting_run, \<lparr> route_Exit = ''exit-of-N1'', route_Match = ''red'' \<rparr>, None)"
    by (simp add: colour_node_def colour_router_def runes_def)
  have before: "saved_results ascii (results waiting_run)"
    by (simp add: waiting_run_def lone_run_def CreateStep_def CreateRun_def saved_results.new)
  show ?thesis
    using built stored routed before lower_keeps_class_ascii
      result_keys_and_nodes [of ascii
         "Save ascii NewResults (NewResult (runes ''Favorite Color'') ''red'' ''Red'' [] ''N1'' [] [])"
         "runes ''favorite_color''"
         "NewResult (runes ''Favorite Color'') ''red'' ''Red'' [] ''N1'' [] []"
         colour_node colour_router waiting_run 0 waiting_run
         "\<lparr> route_Exit = ''exit-of-N1'', route_Match = ''red'' \<rparr>"
         "runes '' Favorite  Color! ''"]
    by (simp add: NewResult_def)
qed

theorem result_keys_counterexample:
  "Snakify ascii_arabic [82, 1635] = [114, 95]
   \<and> snakify_spec ascii_arabic [82, 1635] = [114, 1635]
   \<and> Save ascii_arabic NewResults (NewResult [82, 1635] ''3'' ''Three'' [] ''N1'' [] [])
        (snakify_spec ascii_arabic [82, 1635]) = None
   \<and> Save ascii_arabic NewResults (NewResult [82, 1635] ''3'' ''Three'' [] ''N1'' [] [])
        [114, 95] = Some (NewResult [82, 1635] ''3'' ''Three'' [] ''N1'' [] [])"
  by (simp add: Snakify_def snakify_spec_def TrimSpace_def ascii_arabic_def ascii_def
        snakedChars_def Save_def NewResults_def NewResult_def)



section \<open>Traversal\<close>

lemma traverse_stop: "traverse U flow visited run noDestination step ev err = finish run err"
  by (subst traverse.simps) simp


lemma traverse_missing:
  "destination \<noteq> noDestination \<Longrightarrow> destination \<notin> visited \<Longrightarrow>
   GetNode flow destination = None \<Longrightarrow>
   traverse U flow visited run destination (Some s) ev err =
     finish (AddError run s (destinationError destination))
       (Some (destinationError destination))"
  by (subst traverse.simps) (simp add: Let_def)

lemma traverse_enter:
  "destination \<noteq> noDestination \<Longrightarrow> destination \<notin> visited \<Longrightarrow>
   GetNode flow destination = Some node \<Longrightarrow>
   traverse U flow visited run destination step ev err =
     (case enterNode U run node ev of
        (run', destination', step', err') \<Rightarrow>
          traverse U flow (insert (node_UUID node) visited) run' destination' step' None err')"
  by (subst traverse.simps) simp

lemma pickNodeExit_step: "fst (snd (snd (pickNodeExit U run node step))) = Some step"
  by (simp add: pickNodeExit_def Let_def split: option.splits prod.splits)

lemma enterNode_step:
  "fst (snd (snd (enterNode U run node ev))) = Some (length (path run))"
  by (simp add: enterNode_def CreateStep_def Let_def pickNodeExit_step
           split: option.splits prod.splits)


lemma executeActions_append:
  "executeActions (pre @ rest) run step =
     (case executeActions pre run step of
        (r, Some e) \<Rightarrow> (r, Some e)
      | (r, None) \<Rightarrow> executeActions rest r step)"
  by (induction pre arbitrary: run) (auto split: prod.splits option.splits)

lemma executeActions_in_order:
  "executeActions as run step = (r, None) \<Longrightarrow> r = foldl (\<lambda>r a. fst (a r step)) run as"
  by (induction as arbitrary: run) (auto split: prod.splits option.splits)

lemma enterNode_fail:
  assumes "Actions node = pre @ a # post"
    and "executeActions pre (arrive run node ev) (length (path run)) = (r, None)"
    and "a r (length (path run)) = (r', Some err)"
  shows "enterNode U run node ev = (r', noDestination, Some (length (path run)), Some err)"
proof -
  have "executeActions (Actions node) (arrive run node ev) (length (path run)) = (r', Some err)"
    using assms by (simp add: executeActions_append)
  then show ?thesis
    by (cases ev) (simp_all add: enterNode_def arrive_def CreateStep_def Let_def)
qed






text \<open>
  C5. Starting a flow with no nodes returns no error and a run that is completed, with an
  empty path and no events (the input is stored on the run, not logged as an event); a run
  started without a parent is the only run of its session.
\<close>

theorem start_empty_flow:
  assumes "Nodes flow = []"
  shows "snd (StartFlow U env flow contact parent inp) = None
       \<and> status (fst (StartFlow U env flow contact parent inp)) = RunCompleted
       \<and> path (fst (StartFlow U env flow contact parent inp)) = []
       \<and> events (fst (StartFlow U env flow contact parent inp)) = []
       \<and> (parent = None \<longrightarrow>
            session_runs (fst (StartFlow U env flow contact parent inp))
              = [run_uuid (fst (StartFlow U env flow contact parent inp))])"
  using assms
  by (cases inp) (simp_all add: StartFlow_def CreateRun_def SetInput_def run_Exit_def Let_def)

theorem start_empty_flow_witness:
  "Nodes (flow_of []) = []
   \<and> snd (StartFlow ascii (env_of (flow_of [])) (flow_of []) None None (Some (InputEvent ''hi''))) = None
   \<and> status (fst (StartFlow ascii (env_of (flow_of [])) (flow_of []) None None (Some (InputEvent ''hi'')))) = RunCompleted
   \<and> path (fst (StartFlow ascii (env_of (flow_of [])) (flow_of []) None None (Some (InputEvent ''hi'')))) = []
   \<and> events (fst (StartFlow ascii (env_of (flow_of [])) (flow_of []) None None (Some (InputEvent ''hi'')))) = []
   \<and> session_runs (fst (StartFlow ascii (env_of (flow_of [])) (flow_of []) None None (Some (InputEvent ''hi'')))) = [''R1'']"
proof -
  have empty: "Nodes (flow_of []) = []" by (simp add: flow_of_def)
  have uuid: "run_uuid (fst (StartFlow ascii (env_of (flow_of [])) (flow_of []) None None (Some (InputEvent ''hi'')))) = ''R1''"
    by (simp add: StartFlow_def CreateRun_def SetInput_def run_Exit_def Let_def flow_of_def env_of_def)
  show ?thesis
    using empty uuid start_empty_flow [OF empty, of ascii "env_of (flow_of [])" None None "Some (InputEvent ''hi'')"]
    by simp
qed








section \<open>Errors during traversal\<close>






text \<open>
  C2 (as amended). The actions of an entered node run in order, each on the run the previous
  one left. At the first action whose \<open>Execute\<close> returns an error, no later action of the
  node runs, its wait and router are skipped, no further node is entered and the error is
  returned to the caller; the final check of the continuation then applies to the run as
  the failing action left it.
\<close>

theorem action_error_stops_node:
  "(executeActions acts r0 stp = (r1, None) \<longrightarrow> r1 = foldl (\<lambda>r a. fst (a r stp)) r0 acts)
   \<and> (Actions node = pre @ a # post
        \<and> executeActions pre (arrive run node ev) (length (path run)) = (r, None)
        \<and> a r (length (path run)) = (r', Some err)
      \<longrightarrow> enterNode U run node ev = (r', noDestination, Some (length (path run)), Some err)
          \<and> (destination \<noteq> noDestination \<and> destination \<notin> visited
               \<and> GetNode flow destination = Some node
             \<longrightarrow> traverse U flow visited run destination step ev err0 = finish r' (Some err)))"
proof (intro conjI impI)
  assume "executeActions acts r0 stp = (r1, None)"
  then show "r1 = foldl (\<lambda>r a. fst (a r stp)) r0 acts"
    by (rule executeActions_in_order)
next
  assume fails: "Actions node = pre @ a # post
        \<and> executeActions pre (arrive run node ev) (length (path run)) = (r, None)
        \<and> a r (length (path run)) = (r', Some err)"
  then have acts: "Actions node = pre @ a # post"
    and before: "executeActions pre (arrive run node ev) (length (path run)) = (r, None)"
    and failed: "a r (length (path run)) = (r', Some err)"
    by simp_all
  show entered: "enterNode U run node ev
      = (r', noDestination, Some (length (path run)), Some err)"
    by (rule enterNode_fail [OF acts before failed])
  assume "destination \<noteq> noDestination \<and> destination \<notin> visited
               \<and> GetNode flow destination = Some node"
  then show "traverse U flow visited run destination step ev err0 = finish r' (Some err)"
    by (simp add: traverse_enter entered traverse_stop)
qed

theorem action_error_counterexample:
  "snd (StartFlow ascii (env_of failing_flow) failing_flow None None None) = Some ''boom''
   \<and> status (fst (StartFlow ascii (env_of failing_flow) failing_flow None None None))
       = RunCompleted
   \<and> map step_errors (path (fst (StartFlow ascii (env_of failing_flow) failing_flow None
                                    None None))) = [[]]
   \<and> events (fst (StartFlow ascii (env_of failing_flow) failing_flow None None None))
       = [(0, InputEvent ''one'')]"
  by code_simp

theorem action_error_witness:
  "executeActions [say ''one''] (arrive lone_run (hd (Nodes failing_flow)) None)
       (length (path lone_run))
     = (AddEvent (arrive lone_run (hd (Nodes failing_flow)) None) (length (path lone_run))
          (InputEvent ''one''), None)
   \<and> Actions (hd (Nodes failing_flow)) = [say ''one''] @ failing ''boom'' # [say ''three'']
   \<and> failing ''boom'' (AddEvent (arrive lone_run (hd (Nodes failing_flow)) None)
                          (length (path lone_run)) (InputEvent ''one'')) (length (path lone_run))
       = (AddEvent (arrive lone_run (hd (Nodes failing_flow)) None) (length (path lone_run))
            (InputEvent ''one''), Some ''boom'')
   \<and> ''N1'' \<noteq> noDestination \<and> ''N1'' \<notin> {}
   \<and> GetNode failing_flow ''N1'' = Some (hd (Nodes failing_flow))
   \<and> AddEvent (arrive lone_run (hd (Nodes failing_flow)) None) (length (path lone_run))
          (InputEvent ''one'')
       = foldl (\<lambda>r a. fst (a r (length (path lone_run))))
           (arrive lone_run (hd (Nodes failing_flow)) None) [say ''one'']
   \<and> enterNode ascii lone_run (hd (Nodes failing_flow)) None
       = (AddEvent (arrive lone_run (hd (Nodes failing_flow)) None) (length (path lone_run))
            (InputEvent ''one''), noDestination, Some (length (path lone_run)), Some ''boom'')
   \<and> traverse ascii failing_flow {} lone_run ''N1'' None None None
       = finish (AddEvent (arrive lone_run (hd (Nodes failing_flow)) None)
                   (length (path lone_run)) (InputEvent ''one'')) (Some ''boom'')"
proof -
  have pre: "executeActions [say ''one''] (arrive lone_run (hd (Nodes failing_flow)) None)
       (length (path lone_run))
     = (AddEvent (arrive lone_run (hd (Nodes failing_flow)) None) (length (path lone_run))
          (InputEvent ''one''), None)"
    by (simp add: say_def)
  have acts: "Actions (hd (Nodes failing_flow))
      = [say ''one''] @ failing ''boom'' # [say ''three'']"
    by (simp add: failing_flow_def flow_of_def plain_node_def)
  have fails: "failing ''boom'' (AddEvent (arrive lone_run (hd (Nodes failing_flow)) None)
                          (length (path lone_run)) (InputEvent ''one'')) (length (path lone_run))
       = (AddEvent (arrive lone_run (hd (Nodes failing_flow)) None) (length (path lone_run))
            (InputEvent ''one''), Some ''boom'')"
    by (simp add: failing_def)
  have here: "''N1'' \<noteq> noDestination \<and> ''N1'' \<notin> {}
     \<and> GetNode failing_flow ''N1'' = Some (hd (Nodes failing_flow))"
    by (simp add: noDestination_def GetNode_def failing_flow_def flow_of_def plain_node_def)
  show ?thesis
    using pre acts fails here
      action_error_stops_node [of "[say ''one'']"
        "arrive lone_run (hd (Nodes failing_flow)) None" "length (path lone_run)"
        "AddEvent (arrive lone_run (hd (Nodes failing_flow)) None) (length (path lone_run))
           (InputEvent ''one'')"
        "hd (Nodes failing_flow)" "[say ''one'']" "failing ''boom''" "[say ''three'']"
        lone_run None
        "AddEvent (arrive lone_run (hd (Nodes failing_flow)) None) (length (path lone_run))
           (InputEvent ''one'')"
        "AddEvent (arrive lone_run (hd (Nodes failing_flow)) None) (length (path lone_run))
           (InputEvent ''one'')"
        "''boom''" ascii "''N1''" "{}" failing_flow None None]
    by blast
qed

lemma initTranslations_frame:
  "path (initTranslations flow run) = path run"
  "status (initTranslations flow run) = status run"
  "results (initTranslations flow run) = results run"
  "events (initTranslations flow run) = events run"
  "wait (initTranslations flow run) = wait run"
  by (simp_all add: initTranslations_def SetFlowTranslations_def SetLanguage_def
        split: option.splits)

text \<open>
  C3 (as amended). Resuming a run whose last step is at a node that no longer has a wait
  returns the error \<open>Cannot resume flow at node ... which no longer contains wait\<close> to
  the caller. The run keeps its status, path and events: it is neither exited nor marked
  errored.
\<close>

theorem resume_without_wait:
  assumes "path run \<noteq> []"
    and "GetNode (env_flows env (run_flow run)) (step_node (last (path run))) = Some node"
    and "node_Wait node = None"
  shows "ResumeFlow U env run ev
           = Some (initTranslations (env_flows env (run_flow run)) run,
                   Some (''Cannot resume flow at node '' @ quoted (node_UUID node)
                         @ '' which no longer contains wait''))
       \<and> status (initTranslations (env_flows env (run_flow run)) run) = status run
       \<and> path (initTranslations (env_flows env (run_flow run)) run) = path run
       \<and> events (initTranslations (env_flows env (run_flow run)) run) = events run"
proof -
  have "path run ! (length (path run) - 1) = last (path run)"
    using assms(1) by (simp add: last_conv_nth)
  then show ?thesis
    using assms
    by (subst ResumeFlow.simps)
       (simp add: Hydrate_def Let_def initTranslations_frame resumeNode_def)
qed

theorem resume_without_wait_counterexample:
  "map_option (status \<circ> fst) (ResumeFlow ascii (env_of loop_flow) waiting_run None)
     = Some RunWaiting
   \<and> map_option (status \<circ> fst) (ResumeFlow ascii (env_of loop_flow) waiting_run None)
     \<noteq> Some RunErrored
   \<and> map_option (map step_errors \<circ> path \<circ> fst)
        (ResumeFlow ascii (env_of loop_flow) waiting_run None) = Some [[]]"
proof -
  have "ResumeFlow ascii (env_of loop_flow) waiting_run None
      = Some (initTranslations loop_flow waiting_run,
              Some (''Cannot resume flow at node '' @ quoted ''N1''
                    @ '' which no longer contains wait''))"
    by (subst ResumeFlow.simps)
       (simp add: Hydrate_def Let_def initTranslations_frame resumeNode_def waiting_run_def
          lone_run_def CreateStep_def CreateRun_def env_of_def loop_flow_def flow_of_def
          GetNode_def plain_node_def)
  then show ?thesis
    by (simp add: initTranslations_frame waiting_run_def lone_run_def CreateStep_def
          CreateRun_def)
qed

theorem resume_without_wait_witness:
  "path waiting_run \<noteq> []
   \<and> GetNode (env_flows (env_of loop_flow) (run_flow waiting_run))
        (step_node (last (path waiting_run))) = Some (hd (Nodes loop_flow))
   \<and> node_Wait (hd (Nodes loop_flow)) = None
   \<and> ResumeFlow ascii (env_of loop_flow) waiting_run None
       = Some (initTranslations (env_flows (env_of loop_flow) (run_flow waiting_run)) waiting_run,
               Some (''Cannot resume flow at node '' @ quoted (node_UUID (hd (Nodes loop_flow)))
                     @ '' which no longer contains wait''))
   \<and> status (initTranslations (env_flows (env_of loop_flow) (run_flow waiting_run))
               waiting_run) = RunWaiting"
proof -
  have a: "path waiting_run \<noteq> []"
    by (simp add: waiting_run_def lone_run_def CreateStep_def)
  have b: "GetNode (env_flows (env_of loop_flow) (run_flow waiting_run))
        (step_node (last (path waiting_run))) = Some (hd (Nodes loop_flow))"
    by (simp add: waiting_run_def lone_run_def CreateStep_def CreateRun_def env_of_def
          loop_flow_def flow_of_def GetNode_def plain_node_def)
  have c: "node_Wait (hd (Nodes loop_flow)) = None"
    by (simp add: loop_flow_def flow_of_def plain_node_def)
  have d: "status waiting_run = RunWaiting"
    by (simp add: waiting_run_def)
  show ?thesis
    using a b c d resume_without_wait [OF a b c, of ascii None]
    by simp
qed


section \<open>Webhook responses\<close>
















section \<open>Reading a groups modifier\<close>

lemma resolveGroups_result:
  "resolveGroups assets refs groups log =
     (groups @ List.map_filter (\<lambda>(u, name). asset_groups assets u) refs,
      log @ map (\<lambda>(u, name). GroupReference u name)
              (filter (\<lambda>(u, name). asset_groups assets u = None) refs))"
proof (induction refs arbitrary: groups log)
  case Nil
  show ?case by (simp add: List.map_filter_simps)
next
  case (Cons ref refs)
  obtain u name where ref: "ref = (u, name)" by (cases ref)
  show ?case
    by (cases "asset_groups assets u") (simp_all add: ref Cons List.map_filter_simps)
qed

lemma map_filter_empty:
  "List.map_filter f xs = [] \<longleftrightarrow> (\<forall>x \<in> set xs. f x = None)"
  by (induction xs) (auto simp: List.map_filter_simps split: option.splits)

text \<open>
  C8. Reading a groups modifier gives the \<open>no modifier\<close> error exactly when every
  referenced group is missing from the assets. The missing callback receives the missing
  references, in order: all of them when none resolves. When at least one group resolves,
  the result is a groups modifier over the groups that resolve.
\<close>

theorem groups_modifier_read:
  assumes "mj_type data = Some ''groups''"
  shows "(fst (ReadModifier assets data log) = Inl ErrNoModifier
            \<longleftrightarrow> (\<forall>ref \<in> set (mj_groups data). asset_groups assets (fst ref) = None))
       \<and> snd (ReadModifier assets data log) = log @ missingGroups assets (mj_groups data)
       \<and> ((\<forall>ref \<in> set (mj_groups data). asset_groups assets (fst ref) = None)
            \<longrightarrow> missingGroups assets (mj_groups data)
                  = map (\<lambda>(u, name). GroupReference u name) (mj_groups data))
       \<and> ((\<exists>ref \<in> set (mj_groups data). asset_groups assets (fst ref) \<noteq> None)
            \<longrightarrow> fst (ReadModifier assets data log)
                  = Inr (GroupsModifier (resolvedGroups assets (mj_groups data))
                           (mj_modification data)))"
proof -
  have none: "resolvedGroups assets (mj_groups data) = []
      \<longleftrightarrow> (\<forall>ref \<in> set (mj_groups data). asset_groups assets (fst ref) = None)"
    by (auto simp: resolvedGroups_def map_filter_empty)
  have rd: "ReadModifier assets data log =
      (if resolvedGroups assets (mj_groups data) \<noteq> []
       then Inr (GroupsModifier (resolvedGroups assets (mj_groups data)) (mj_modification data))
       else Inl ErrNoModifier,
       log @ missingGroups assets (mj_groups data))"
    using assms
    by (simp add: ReadModifier_def readGroupsModifier_def resolveGroups_result
          resolvedGroups_def missingGroups_def)
  have all: "missingGroups assets (mj_groups data)
                  = map (\<lambda>(u, name). GroupReference u name) (mj_groups data)"
    if "\<forall>ref \<in> set (mj_groups data). asset_groups assets (fst ref) = None"
  proof -
    have "filter (\<lambda>(u, name). asset_groups assets u = None) (mj_groups data) = mj_groups data"
      using that by (intro filter_True) auto
    then show ?thesis by (simp add: missingGroups_def)
  qed
  show ?thesis
    using none all by (auto simp: rd)
qed

theorem groups_modifier_read_witness:
  "mj_type (groups_json [(''8632b9f0'', ''Testers'')]) = Some ''groups''
   \<and> asset_groups no_assets ''8632b9f0'' = None
   \<and> ReadModifier no_assets (groups_json [(''8632b9f0'', ''Testers'')]) []
       = (Inl ErrNoModifier, [GroupReference ''8632b9f0'' ''Testers''])
   \<and> asset_groups winners_assets ''cd1a2aa6'' = None
   \<and> asset_groups winners_assets ''4349cdd6''
       = Some \<lparr> group_UUID = ''4349cdd6'', group_Name = ''Winners'' \<rparr>
   \<and> ReadModifier winners_assets
         (groups_json [(''cd1a2aa6'', ''Losers''), (''4349cdd6'', ''Winners'')]) []
       = (Inr (GroupsModifier [\<lparr> group_UUID = ''4349cdd6'', group_Name = ''Winners'' \<rparr>] ''add''),
          [GroupReference ''cd1a2aa6'' ''Losers''])"
proof -
  have kind: "mj_type (groups_json refs) = Some ''groups''" for refs
    by (simp add: groups_json_def)
  have none: "\<forall>ref \<in> set (mj_groups (groups_json [(''8632b9f0'', ''Testers'')])).
          asset_groups no_assets (fst ref) = None"
    by (simp add: groups_json_def no_assets_def)
  have some: "\<exists>ref \<in> set (mj_groups (groups_json [(''cd1a2aa6'', ''Losers''), (''4349cdd6'', ''Winners'')])).
          asset_groups winners_assets (fst ref) \<noteq> None"
    by (simp add: groups_json_def winners_assets_def)
  have first: "fst (ReadModifier no_assets (groups_json [(''8632b9f0'', ''Testers'')]) [])
                 = Inl ErrNoModifier
      \<and> snd (ReadModifier no_assets (groups_json [(''8632b9f0'', ''Testers'')]) [])
          = [] @ map (\<lambda>(u, name). GroupReference u name)
                   (mj_groups (groups_json [(''8632b9f0'', ''Testers'')]))"
    using groups_modifier_read [OF kind, of no_assets "[(''8632b9f0'', ''Testers'')]" "[]"] none
    by simp
  have second: "fst (ReadModifier winners_assets
         (groups_json [(''cd1a2aa6'', ''Losers''), (''4349cdd6'', ''Winners'')]) [])
       = Inr (GroupsModifier (resolvedGroups winners_assets
                (mj_groups (groups_json [(''cd1a2aa6'', ''Losers''), (''4349cdd6'', ''Winners'')])))
               (mj_modification (groups_json [(''cd1a2aa6'', ''Losers''), (''4349cdd6'', ''Winners'')])))
      \<and> snd (ReadModifier winners_assets
         (groups_json [(''cd1a2aa6'', ''Losers''), (''4349cdd6'', ''Winners'')]) [])
       = [] @ missingGroups winners_assets
                (mj_groups (groups_json [(''cd1a2aa6'', ''Losers''), (''4349cdd6'', ''Winners'')]))"
    using groups_modifier_read [OF kind, of winners_assets
        "[(''cd1a2aa6'', ''Losers''), (''4349cdd6'', ''Winners'')]" "[]"] some
    by blast
  have a: "ReadModifier no_assets (groups_json [(''8632b9f0'', ''Testers'')]) []
       = (Inl ErrNoModifier, [GroupReference ''8632b9f0'' ''Testers''])"
    using first by (simp add: prod_eq_iff groups_json_def)
  have b: "ReadModifier winners_assets
         (groups_json [(''cd1a2aa6'', ''Losers''), (''4349cdd6'', ''Winners'')]) []
       = (Inr (GroupsModifier [\<lparr> group_UUID = ''4349cdd6'', group_Name = ''Winners'' \<rparr>] ''add''),
          [GroupReference ''cd1a2aa6'' ''Losers''])"
    using second
    by (simp add: prod_eq_iff groups_json_def winners_assets_def resolvedGroups_def
          missingGroups_def List.map_filter_simps)
  have c: "asset_groups no_assets ''8632b9f0'' = None
     \<and> asset_groups winners_assets ''cd1a2aa6'' = None
     \<and> asset_groups winners_assets ''4349cdd6''
         = Some \<lparr> group_UUID = ''4349cdd6'', group_Name = ''Winners'' \<rparr>"
    by (simp add: no_assets_def winners_assets_def)
  show ?thesis
    using kind a b c by blast
qed


section \<open>The exit stamped on a step\<close>


lemma findExit_Some: "findExit es u = Some e \<Longrightarrow> e \<in> set es \<and> exit_UUID e = u"
  by (induction es arbitrary: e rule: rev_induct) (auto simp: findExit_def split: if_splits)









section \<open>Resuming a run that has no steps\<close>

text \<open>
  C10. Resuming a run whose path is empty returns the run with no error: no step and no
  event is added, and the status and the results are those of the run given.
\<close>

theorem resume_empty_path:
  assumes "path run = []"
  shows "ResumeFlow U env run ev = Some (Hydrate run env, None)
       \<and> path (Hydrate run env) = [] \<and> events (Hydrate run env) = events run
       \<and> status (Hydrate run env) = status run \<and> results (Hydrate run env) = results run"
  using assms by (subst ResumeFlow.simps) (simp add: Hydrate_def)

theorem resume_empty_path_witness:
  "path fresh_run = []
   \<and> ResumeFlow ascii (env_of loop_flow) fresh_run (Some (InputEvent ''hi''))
       = Some (fresh_run, None)"
proof -
  have empty: "path fresh_run = []"
    by (simp add: fresh_run_def CreateRun_def)
  show ?thesis
    using empty resume_empty_path [OF empty, of ascii "env_of loop_flow" "Some (InputEvent ''hi'')"]
    by (simp add: Hydrate_def)
qed

end
